theory Spec2Isabelle
  imports Complex_Main "HOL-Library.Char_ord" "HOL-Library.List_Lexorder"
begin

section \<open>The data frame read from the CSV file\<close>

text \<open>
  \<^verbatim>\<open>app.py\<close> keeps two module globals: \<^verbatim>\<open>df\<close>, the frame \<^verbatim>\<open>pd.read_csv\<close> returns
  (an empty \<^verbatim>\<open>pd.DataFrame()\<close> when the file is absent), and \<^verbatim>\<open>model_data\<close>, the loaded
  model (\<^verbatim>\<open>None\<close> when the file is absent). Both are arguments of the functions below.

  A column read from a CSV file has one dtype: \<^verbatim>\<open>object\<close> when some field of it is text
  (every field is then a string or missing), a numeric dtype otherwise (every field is a
  number or missing; a column with no value at all is \<^verbatim>\<open>float64\<close>). Numbers are rationals
  here: the arithmetic of the source is modelled exactly, without the rounding error of
  binary floating point, and the one special float the code manipulates, NaN, is a value of
  its own. Text is ASCII: letter case and white space are those of the ASCII range.
\<close>

datatype cell = NA | Str string | Num rat

datatype series = Object "string option list" | Float64 "rat option list"

type_synonym dataframe = "(string \<times> series) list"

datatype pyfloat = NaN | Fin rat

text \<open>The responses of the two routes that are not a success, by HTTP status and message.\<close>

datatype error =
    ClientInputError \<comment> \<open>400, "Missing location or cuisine"\<close>
  | DataUnavailable \<comment> \<open>500, "No data available"\<close>
  | SchemaError \<comment> \<open>500, "Required columns not found in dataset"\<close>
  | NotFound \<comment> \<open>404, "No data found for location"\<close>
  | ComputationError \<comment> \<open>500, the handler of \<^verbatim>\<open>except Exception\<close>\<close>

fun series_len :: "series \<Rightarrow> nat" where
  "series_len (Object xs) = length xs"
| "series_len (Float64 xs) = length xs"

fun series_cells :: "series \<Rightarrow> cell list" where
  "series_cells (Object xs) = map (\<lambda>x. case x of None \<Rightarrow> NA | Some t \<Rightarrow> Str t) xs"
| "series_cells (Float64 xs) = map (\<lambda>x. case x of None \<Rightarrow> NA | Some q \<Rightarrow> Num q) xs"

definition columns :: "dataframe \<Rightarrow> string list" where
  "columns df = map fst df"

text \<open>\<^verbatim>\<open>len(df)\<close>: the length of the index, which every column shares.\<close>

fun nrows :: "dataframe \<Rightarrow> nat" where
  "nrows [] = 0"
| "nrows ((_, s) # _) = series_len s"

text \<open>\<^verbatim>\<open>df.empty\<close>: some axis has length 0.\<close>

definition df_empty :: "dataframe \<Rightarrow> bool" where
  "df_empty df = (df = [] \<or> nrows df = 0)"

text \<open>The frames pandas builds: every column is as long as the index.\<close>

definition wf_df :: "dataframe \<Rightarrow> bool" where
  "wf_df df = list_all (\<lambda>(_, s). series_len s = nrows df) df"

text \<open>Boolean-mask selection \<^verbatim>\<open>df[mask]\<close>: the rows whose mask entry is true, in order.\<close>

fun select :: "bool list \<Rightarrow> 'a list \<Rightarrow> 'a list" where
  "select (b # bs) (x # xs) = (if b then x # select bs xs else select bs xs)"
| "select _ _ = []"

fun select_series :: "bool list \<Rightarrow> series \<Rightarrow> series" where
  "select_series m (Object xs) = Object (select m xs)"
| "select_series m (Float64 xs) = Float64 (select m xs)"

definition select_rows :: "bool list \<Rightarrow> dataframe \<Rightarrow> dataframe" where
  "select_rows m df = map (\<lambda>(n, s). (n, select_series m s)) df"

text \<open>\<^verbatim>\<open>dropna()\<close> on the values of a column.\<close>

fun dropna :: "'a option list \<Rightarrow> 'a list" where
  "dropna [] = []"
| "dropna (None # xs) = dropna xs"
| "dropna (Some x # xs) = x # dropna xs"

text \<open>\<^verbatim>\<open>unique()\<close>: the distinct values in order of first appearance.\<close>

fun unique :: "'a list \<Rightarrow> 'a list \<Rightarrow> 'a list" where
  "unique seen [] = rev seen"
| "unique seen (x # xs) = (if x \<in> set seen then unique seen xs else unique (x # seen) xs)"

section \<open>Column resolution\<close>

text \<open>
  The loops \<^verbatim>\<open>for col in [...]: if col in df.columns: ..._col = col; break\<close>:
  the first alias that is a column of the frame.
\<close>

fun first_alias :: "string list \<Rightarrow> dataframe \<Rightarrow> string option" where
  "first_alias [] df = None"
| "first_alias (col # cols) df =
     (if col \<in> set (columns df) then Some col else first_alias cols df)"

definition location_columns :: "string list" where
  "location_columns = [''Location'', ''location'', ''LOCATION'']"

definition cuisine_columns :: "string list" where
  "cuisine_columns = [''Cuisines'', ''cuisines'', ''CUISINES'', ''Cuisine'', ''cuisine'']"

definition price_columns :: "string list" where
  "price_columns = [''Price_for_one'', ''price_for_one'', ''Price'', ''price'']"

definition rating_columns :: "string list" where
  "rating_columns = [''Rating'', ''rating'', ''RATING'']"

definition name_columns :: "string list" where
  "name_columns = [''Name'', ''name'', ''NAME'', ''Restaurant_Name'', ''restaurant_name'']"

section \<open>Text\<close>

text \<open>\<^verbatim>\<open>str.strip()\<close>: the white space of the ASCII range is TAB, LF, VT, FF, CR, FS, GS, RS, US and the space.\<close>

definition is_space :: "char \<Rightarrow> bool" where
  "is_space c = (of_char c \<in> set [9, 10, 11, 12, 13, 28, 29, 30, 31, 32 :: nat])"

definition strip :: "string \<Rightarrow> string" where
  "strip s = rev (dropWhile is_space (rev (dropWhile is_space s)))"

text \<open>\<^verbatim>\<open>s.split(',')\<close>: the pieces between the commas, one more than there are commas.\<close>

fun split_comma :: "string \<Rightarrow> string list" where
  "split_comma [] = [[]]"
| "split_comma (c # cs) =
     (if c = CHR '','' then [] # split_comma cs
      else (case split_comma cs of [] \<Rightarrow> [[c]] | t # ts \<Rightarrow> (c # t) # ts))"

definition lower :: "char \<Rightarrow> char" where
  "lower c = (if 65 \<le> (of_char c :: nat) \<and> (of_char c :: nat) \<le> 90
              then char_of (of_char c + (32 :: nat)) else c)"

fun starts_with :: "string \<Rightarrow> string \<Rightarrow> bool" where
  "starts_with [] s = True"
| "starts_with (p # ps) [] = False"
| "starts_with (p # ps) (c # cs) = (p = c \<and> starts_with ps cs)"

fun contains :: "string \<Rightarrow> string \<Rightarrow> bool" where
  "contains pat [] = (pat = [])"
| "contains pat (c # cs) = (starts_with pat (c # cs) \<or> contains pat cs)"

text \<open>The case-insensitive substring test.\<close>

definition icontains :: "string \<Rightarrow> string \<Rightarrow> bool" where
  "icontains pat s = contains (map lower pat) (map lower s)"

text \<open>
  \<^verbatim>\<open>Series.str.contains(pat, case=False, na=False)\<close> reads \<^verbatim>\<open>pat\<close> as a regular
  expression (\<^verbatim>\<open>regex=True\<close> is the default): it compiles it with \<^verbatim>\<open>re.IGNORECASE\<close> once
  and searches every string of the column. A pattern with none of the special characters of
  \<^verbatim>\<open>re\<close> matches itself only, so the search is the case-insensitive substring test. What
  \<^verbatim>\<open>re\<close> does with any other pattern is a parameter: \<open>None\<close> when compiling raises
  \<^verbatim>\<open>re.error\<close>, the search otherwise.
\<close>

type_synonym regex_engine = "string \<Rightarrow> (string \<Rightarrow> bool) option"

definition special_chars :: "char list" where
  "special_chars = ''.^$*+?{}[]|()'' @ [CHR 0x5C]"

definition literal :: "string \<Rightarrow> bool" where
  "literal pat = list_all (\<lambda>c. c \<notin> set special_chars) pat"

definition re_compile :: "regex_engine \<Rightarrow> string \<Rightarrow> (string \<Rightarrow> bool) option" where
  "re_compile re pat = (if literal pat then Some (icontains pat) else re pat)"

text \<open>
  The \<^verbatim>\<open>.str\<close> accessor raises \<^verbatim>\<open>AttributeError\<close> on a column that is not of dtype
  \<^verbatim>\<open>object\<close>; a missing value gives \<^verbatim>\<open>na=False\<close>.
\<close>

fun na_false :: "(string \<Rightarrow> bool) \<Rightarrow> string option \<Rightarrow> bool" where
  "na_false m None = False"
| "na_false m (Some t) = m t"

fun str_contains :: "regex_engine \<Rightarrow> series \<Rightarrow> string \<Rightarrow> error + bool list" where
  "str_contains re (Float64 xs) pat = Inl ComputationError"
| "str_contains re (Object xs) pat =
     (case re_compile re pat of
        None \<Rightarrow> Inl ComputationError
      | Some m \<Rightarrow> Inr (map (na_false m) xs))"

section \<open>Aggregates\<close>

text \<open>
  \<^verbatim>\<open>Series.mode()\<close>: the most frequent of the values that are not missing, all of them when
  several tie, sorted ascending; no value at all when every value is missing.
\<close>

definition mode_of :: "'a::linorder list \<Rightarrow> 'a list" where
  "mode_of vs =
     (let u = unique [] vs;
          top = fold max (map (count_list vs) u) 0
      in sort (filter (\<lambda>v. count_list vs v = top) u))"

fun mode :: "series \<Rightarrow> cell list" where
  "mode (Object xs) = map Str (mode_of (dropna xs))"
| "mode (Float64 xs) = map Num (mode_of (dropna xs))"

text \<open>
  \<^verbatim>\<open>Series.mean()\<close> skips the missing values and is NaN when none is left; on the strings of
  an \<^verbatim>\<open>object\<close> column it raises \<^verbatim>\<open>TypeError\<close>.
\<close>

fun mean :: "series \<Rightarrow> error + pyfloat" where
  "mean (Float64 xs) =
     (let vs = dropna xs
      in Inr (if vs = [] then NaN else Fin (sum_list vs / of_nat (length vs))))"
| "mean (Object xs) = (if dropna xs = [] then Inr NaN else Inl ComputationError)"

text \<open>\<^verbatim>\<open>Series.isna().all()\<close>\<close>

fun isna_all :: "series \<Rightarrow> bool" where
  "isna_all (Object xs) = (dropna xs = [])"
| "isna_all (Float64 xs) = (dropna xs = [])"

text \<open>
  \<^verbatim>\<open>Series.idxmax()\<close> skips the missing values and returns the row of the first occurrence
  of the maximum: a scan that keeps the best row so far and replaces it only by a strictly
  greater value. The values of a column of text are compared as strings, in the order of
  their characters. With no value at all there is no row to return, and the call raises.
\<close>

fun argmax_from ::
  "nat \<Rightarrow> (nat \<times> 'a::linorder) option \<Rightarrow> 'a option list \<Rightarrow> (nat \<times> 'a) option" where
  "argmax_from i best [] = best"
| "argmax_from i best (None # xs) = argmax_from (Suc i) best xs"
| "argmax_from i best (Some v # xs) =
     argmax_from (Suc i)
       (case best of
          None \<Rightarrow> Some (i, v)
        | Some (j, w) \<Rightarrow> if w < v then Some (i, v) else Some (j, w)) xs"

fun idxmax :: "series \<Rightarrow> error + nat" where
  "idxmax (Object xs) =
     (case argmax_from 0 None xs of None \<Rightarrow> Inl ComputationError | Some (i, _) \<Rightarrow> Inr i)"
| "idxmax (Float64 xs) =
     (case argmax_from 0 None xs of None \<Rightarrow> Inl ComputationError | Some (i, _) \<Rightarrow> Inr i)"

text \<open>\<^verbatim>\<open>df.loc[row][col]\<close>: the field of one row.\<close>

definition cell_at :: "series \<Rightarrow> nat \<Rightarrow> cell" where
  "cell_at s i = (let cs = series_cells s in if i < length cs then cs ! i else NA)"

text \<open>
  Lines 145 to 147 and 155 to 157: the name of the best rated row of a frame, \<open>None\<close> when
  every rating is missing.
\<close>

definition top_rated :: "dataframe \<Rightarrow> string \<Rightarrow> string \<Rightarrow> error + cell option" where
  "top_rated frame rating_col name_col =
     (case (map_of frame rating_col, map_of frame name_col) of
        (Some ratings, Some names) \<Rightarrow>
          if isna_all ratings then Inr None
          else (case idxmax ratings of
                  Inl e \<Rightarrow> Inl e
                | Inr i \<Rightarrow> Inr (Some (cell_at names i)))
      | _ \<Rightarrow> Inl ComputationError)"

text \<open>Truth value of a float: zero is false, every other value is true, NaN included.\<close>

fun truthy :: "pyfloat \<Rightarrow> bool" where
  "truthy NaN = True"
| "truthy (Fin q) = (q \<noteq> 0)"

text \<open>\<^verbatim>\<open>round(x, 2)\<close>: to the nearest hundredth, a tie going to the even one; NaN stays NaN.\<close>

definition rint :: "rat \<Rightarrow> int" where
  "rint x =
     (let f = \<lfloor>x\<rfloor>; d = x - of_int f
      in if d < 1 / 2 then f else if 1 / 2 < d then f + 1 else if even f then f else f + 1)"

fun round2 :: "pyfloat \<Rightarrow> pyfloat" where
  "round2 NaN = NaN"
| "round2 (Fin q) = Fin (of_int (rint (q * 100)) / 100)"

section \<open>The route \<^verbatim>\<open>/options\<close>\<close>

record options =
  locations :: "cell list"
  cuisines :: "string list"
  total_records :: nat

text \<open>
  Line 58: the distinct values of the column that are not missing and whose text is not
  blank, sorted. The list holds the values themselves: \<^verbatim>\<open>str(loc).strip()\<close> is the
  condition of the comprehension only. \<open>fmt\<close> is \<^verbatim>\<open>str\<close> on a number.
\<close>

fun unique_locations :: "(rat \<Rightarrow> string) \<Rightarrow> series \<Rightarrow> cell list" where
  "unique_locations fmt (Object xs) =
     map Str (sort (filter (\<lambda>loc. strip loc \<noteq> []) (unique [] (dropna xs))))"
| "unique_locations fmt (Float64 xs) =
     map Num (sort (filter (\<lambda>loc. strip (fmt loc) \<noteq> []) (unique [] (dropna xs))))"

text \<open>
  Lines 62 to 71: every entry that is not missing is split at the commas, each piece is
  stripped and, when something is left, added to the set \<^verbatim>\<open>all_cuisines\<close>, kept here as a
  list without repetition; the result is that set, sorted.
\<close>

fun entry_texts :: "(rat \<Rightarrow> string) \<Rightarrow> series \<Rightarrow> string list" where
  "entry_texts fmt (Object xs) = dropna xs"
| "entry_texts fmt (Float64 xs) = map fmt (dropna xs)"

definition add_cuisine :: "string \<Rightarrow> string list \<Rightarrow> string list" where
  "add_cuisine cuisine all_cuisines =
     (let cleaned = strip cuisine
      in if cleaned \<noteq> [] then List.insert cleaned all_cuisines else all_cuisines)"

definition collect_cuisines :: "string list \<Rightarrow> string list" where
  "collect_cuisines entries =
     fold (\<lambda>cuisine_entry all_cuisines. fold add_cuisine (split_comma cuisine_entry) all_cuisines)
       entries []"

definition get_options :: "(rat \<Rightarrow> string) \<Rightarrow> dataframe \<Rightarrow> error + options" where
  "get_options fmt df =
     (if df_empty df then Inl DataUnavailable
      else
        let location_col = first_alias location_columns df;
            cuisine_col = first_alias cuisine_columns df
        in Inr \<lparr>locations =
                   (case location_col of
                      None \<Rightarrow> []
                    | Some lc \<Rightarrow>
                        (case map_of df lc of None \<Rightarrow> [] | Some s \<Rightarrow> unique_locations fmt s)),
                 cuisines =
                   (case cuisine_col of
                      None \<Rightarrow> []
                    | Some cc \<Rightarrow>
                        (case map_of df cc of
                           None \<Rightarrow> []
                         | Some s \<Rightarrow> sort (collect_cuisines (entry_texts fmt s)))),
                 total_records = nrows df\<rparr>)"

section \<open>The route \<^verbatim>\<open>/predict\<close>\<close>

text \<open>
  The body of the request: \<open>None\<close> is a key the JSON object does not have.
\<close>

record request =
  req_location :: "string option"
  req_cuisine :: "string option"
  req_price :: "rat option"

record response =
  average_price :: pyfloat
  popular_cuisine :: cell
  Popular_Restaurant :: cell
  Popular_Restaurant_serving_cuisine :: cell
  suggested_price :: pyfloat

text \<open>
  The loaded model, called on the one-row frame \<^verbatim>\<open>input_df\<close> (column name and value, for
  the location and for the cuisine): the price it predicts, or \<open>None\<close> when the encoding or
  the prediction raises. The calls made are returned beside the response.
\<close>

type_synonym predictor = "(string \<times> string) list \<Rightarrow> rat option"

type_synonym invocations = "(string \<times> string) list list"

text \<open>
  \<^verbatim>\<open>frame[frame[col].str.contains(pat, case=False, na=False)]\<close>: the rows whose field
  \<open>col\<close> matches the pattern. Line 132 does it on \<^verbatim>\<open>df\<close> with the location, lines 150 and
  154 on \<^verbatim>\<open>df_location\<close> with the cuisine.
\<close>

definition filter_rows :: "regex_engine \<Rightarrow> dataframe \<Rightarrow> string \<Rightarrow> string \<Rightarrow> error + dataframe" where
  "filter_rows re frame col pat =
     (case map_of frame col of
        None \<Rightarrow> Inl ComputationError
      | Some s \<Rightarrow>
          (case str_contains re s pat of
             Inl e \<Rightarrow> Inl e
           | Inr rows_in \<Rightarrow> Inr (select_rows rows_in frame)))"

text \<open>
  The name of the best rated row when both optional columns are known, \<open>None\<close> otherwise
  (\<^verbatim>\<open>if rating_col and name_col\<close>).
\<close>

definition best_of :: "dataframe \<Rightarrow> string option \<Rightarrow> string option \<Rightarrow> error + cell option" where
  "best_of frame rating_col name_col =
     (case (rating_col, name_col) of
        (Some rc, Some nc) \<Rightarrow> top_rated frame rc nc
      | _ \<Rightarrow> Inr None)"

text \<open>Lines 136 to 157, on the rows of the location.\<close>

definition statistics ::
  "regex_engine \<Rightarrow> dataframe \<Rightarrow> string \<Rightarrow> string \<Rightarrow> string option \<Rightarrow> string option \<Rightarrow> string
     \<Rightarrow> error + (cell \<times> pyfloat \<times> cell \<times> cell)" where
  "statistics re df_location cuisine_col price_col rating_col name_col cuisine =
     (case (map_of df_location cuisine_col, map_of df_location price_col) of
        (Some cuisine_values, Some price_values) \<Rightarrow>
          (let popular = (case mode cuisine_values of [] \<Rightarrow> Str ''Not Available'' | m # _ \<Rightarrow> m)
           in case mean price_values of
                Inl e \<Rightarrow> Inl e
              | Inr average \<Rightarrow>
                  (case best_of df_location rating_col name_col of
                     Inl e \<Rightarrow> Inl e
                   | Inr overall \<Rightarrow>
                       (case filter_rows re df_location cuisine_col cuisine of
                          Inl e \<Rightarrow> Inl e
                        | Inr cuisine_restaurants \<Rightarrow>
                            (case (if \<not> df_empty cuisine_restaurants
                                   then best_of cuisine_restaurants rating_col name_col
                                   else Inr None) of
                               Inl e \<Rightarrow> Inl e
                             | Inr for_cuisine \<Rightarrow>
                                 Inr (popular, average,
                                      (case overall of None \<Rightarrow> Str ''Not Available'' | Some n \<Rightarrow> n),
                                      (case for_cuisine of None \<Rightarrow> Str ''Not Found'' | Some n \<Rightarrow> n))))))
      | _ \<Rightarrow> Inl ComputationError)"

text \<open>Lines 160 to 174: the suggested price before rounding, and the calls of the model.\<close>

definition suggest ::
  "predictor option \<Rightarrow> (string \<times> string) list \<Rightarrow> rat \<Rightarrow> pyfloat \<Rightarrow> pyfloat \<times> invocations" where
  "suggest model_data input_df price average =
     (case model_data of
        None \<Rightarrow> (Fin price, [])
      | Some model \<Rightarrow>
          (case model input_df of
             Some predicted_price \<Rightarrow>
               (Fin (if price \<ge> predicted_price then predicted_price
                     else min (price * (11 / 10)) predicted_price),
                [input_df])
           | None \<Rightarrow> (if truthy average then average else Fin price, [input_df])))"

text \<open>Lines 131 to 184, once the three required columns are known.\<close>

definition estimate ::
  "regex_engine \<Rightarrow> dataframe \<Rightarrow> predictor option \<Rightarrow> string \<Rightarrow> string \<Rightarrow> string
     \<Rightarrow> string option \<Rightarrow> string option \<Rightarrow> string \<Rightarrow> string \<Rightarrow> rat
     \<Rightarrow> (error + response) \<times> invocations" where
  "estimate re df model_data location_col cuisine_col price_col rating_col name_col
     location cuisine price =
     (case filter_rows re df location_col location of
        Inl e \<Rightarrow> (Inl e, [])
      | Inr df_location \<Rightarrow>
          if df_empty df_location then (Inl NotFound, [])
          else
            (case statistics re df_location cuisine_col price_col rating_col name_col cuisine of
               Inl e \<Rightarrow> (Inl e, [])
             | Inr (popular, average, overall, for_cuisine) \<Rightarrow>
                 (let (suggested, calls) =
                        suggest model_data
                          [(location_col, location), (cuisine_col, cuisine)] price average
                  in (Inr \<lparr>average_price = (if truthy average then round2 average else Fin 0),
                           popular_cuisine = popular,
                           Popular_Restaurant = overall,
                           Popular_Restaurant_serving_cuisine = for_cuisine,
                           suggested_price = round2 suggested\<rparr>,
                      calls))))"

definition predict ::
  "regex_engine \<Rightarrow> dataframe \<Rightarrow> predictor option \<Rightarrow> request \<Rightarrow> (error + response) \<times> invocations" where
  "predict re df model_data data =
     (case (req_location data, req_cuisine data) of
        (Some location, Some cuisine) \<Rightarrow>
          (let price = (case req_price data of None \<Rightarrow> 0 | Some p \<Rightarrow> p)
           in if location = [] \<or> cuisine = [] then (Inl ClientInputError, [])
              else if df_empty df then (Inl DataUnavailable, [])
              else
                (case (first_alias location_columns df, first_alias cuisine_columns df,
                       first_alias price_columns df) of
                   (Some location_col, Some cuisine_col, Some price_col) \<Rightarrow>
                     estimate re df model_data location_col cuisine_col price_col
                       (first_alias rating_columns df) (first_alias name_columns df)
                       location cuisine price
                 | _ \<Rightarrow> (Inl SchemaError, [])))
      | _ \<Rightarrow> (Inl ClientInputError, []))"

text \<open>
  \<^verbatim>\<open>df.iloc[idx]\<close>: the rows at the positions \<open>idx\<close>, in that order, a position as often
  as it is listed. With every position of the frame listed it is the frame with its rows
  reordered and some of them repeated.
\<close>

fun take_rows :: "nat list \<Rightarrow> series \<Rightarrow> series" where
  "take_rows idx (Object xs) = Object (map (\<lambda>i. xs ! i) idx)"
| "take_rows idx (Float64 xs) = Float64 (map (\<lambda>i. xs ! i) idx)"

definition iloc :: "nat list \<Rightarrow> dataframe \<Rightarrow> dataframe" where
  "iloc idx df = map (\<lambda>(n, s). (n, take_rows idx s)) df"

text \<open>The data set of the example of section 8 of the specification.\<close>

definition downtown :: dataframe where
  "downtown =
     [(''Location'', Object [Some ''Downtown'', Some ''Downtown'', Some ''Downtown'']),
      (''Cuisines'', Object [Some ''Italian'', Some ''Italian,Mexican'', Some ''Thai'']),
      (''Price_for_one'', Float64 [Some 10, Some 20, Some 30]),
      (''Rating'', Float64 [Some 2, Some 5, Some 3]),
      (''Name'', Object [Some ''A'', Some ''B'', Some ''C''])]"

text \<open>A location whose only row has no price.\<close>

definition unpriced :: dataframe where
  "unpriced =
     [(''Location'', Object [Some ''Downtown'']),
      (''Cuisines'', Object [Some ''Thai'']),
      (''Price_for_one'', Float64 [None])]"

text \<open>The same location written twice, once with a trailing space.\<close>

definition padded :: dataframe where
  "padded =
     [(''Location'', Object [Some ''Downtown '', Some ''Downtown'']),
      (''Cuisines'', Object [Some ''Thai'', Some ''Thai''])]"

section \<open>Frames, masks and columns\<close>

lemma re_compile_literal: "literal pat \<Longrightarrow> re_compile re pat = Some (icontains pat)"
  by (simp add: re_compile_def)


lemma length_select: "length m = length xs \<Longrightarrow> length (select m xs) = length (filter id m)"
  by (induction m xs rule: select.induct) auto

lemma select_map: "select m (map f xs) = map f (select m xs)"
  by (induction m xs rule: select.induct) auto

lemma series_len_select: "series_len (select_series m s) = length (select m (series_cells s))"
  by (cases s) (simp_all add: select_map)

lemma map_of_select_rows: "map_of (select_rows m df) c = map_option (select_series m) (map_of df c)"
  by (induction df) (auto simp: select_rows_def)

lemma columns_select_rows: "columns (select_rows m df) = columns df"
  by (induction df) (auto simp: select_rows_def columns_def)

lemma first_alias_in: "first_alias cols df = Some c \<Longrightarrow> c \<in> set (columns df)"
  by (induction cols) (auto split: if_splits)

lemma first_alias_cong: "columns df' = columns df \<Longrightarrow> first_alias cols df' = first_alias cols df"
  by (induction cols) auto

lemma map_of_column: "c \<in> set (columns df) \<Longrightarrow> \<exists>s. map_of df c = Some s"
  by (induction df) (auto simp: columns_def)

lemma filter_rows_Object:
  "map_of frame col = Some (Object xs) \<Longrightarrow> re_compile re pat = Some m
   \<Longrightarrow> filter_rows re frame col pat = Inr (select_rows (map (na_false m) xs) frame)"
  by (simp add: filter_rows_def)

lemma filter_rows_success:
  assumes "filter_rows re frame col pat = Inr sub"
  shows "\<exists>xs m. map_of frame col = Some (Object xs) \<and> re_compile re pat = Some m \<and>
           sub = select_rows (map (na_false m) xs) frame"
proof -
  from assms obtain s where s: "map_of frame col = Some s"
    by (auto simp: filter_rows_def split: option.splits)
  with assms obtain xs where xs: "s = Object xs"
    by (cases s) (auto simp: filter_rows_def)
  with assms s show ?thesis
    by (auto simp: filter_rows_def split: option.splits)
qed


lemma wf_df_len: "wf_df df \<Longrightarrow> map_of df c = Some s \<Longrightarrow> series_len s = nrows df"
  by (auto simp: wf_df_def list_all_iff dest!: map_of_SomeD)

lemma df_nonempty_select:
  assumes "wf_df df" "df \<noteq> []" "length m = nrows df" "True \<in> set m"
  shows "\<not> df_empty (select_rows m df)"
proof -
  from assms(2) obtain n s rest where df: "df = (n, s) # rest" by (cases df) auto
  with assms(3) have "length m = length (series_cells s)" by (cases s) simp_all
  then have "length (select m (series_cells s)) = length (filter id m)"
    by (rule length_select)
  moreover from assms(4) have "filter id m \<noteq> []" by (auto simp: filter_empty_conv)
  ultimately show ?thesis
    using df by (simp add: df_empty_def select_rows_def series_len_select)
qed

section \<open>What a successful call of \<^verbatim>\<open>predict\<close> went through\<close>

lemma predict_success:
  assumes "predict re df model_data data = (Inr r, calls)"
  shows "\<exists>location cuisine lc cc pc.
     req_location data = Some location \<and> req_cuisine data = Some cuisine \<and>
     location \<noteq> [] \<and> cuisine \<noteq> [] \<and> \<not> df_empty df \<and>
     first_alias location_columns df = Some lc \<and>
     first_alias cuisine_columns df = Some cc \<and>
     first_alias price_columns df = Some pc \<and>
     estimate re df model_data lc cc pc (first_alias rating_columns df) (first_alias name_columns df)
        location cuisine (case req_price data of None \<Rightarrow> 0 | Some p \<Rightarrow> p) = (Inr r, calls)"
  using assms
  by (auto simp: predict_def Let_def split: option.splits if_splits)

lemma estimate_success:
  assumes "estimate re df model_data lc cc pc rc nc location cuisine price = (Inr r, calls)"
  shows "\<exists>df_location popular average overall for_cuisine.
     filter_rows re df lc location = Inr df_location \<and> \<not> df_empty df_location \<and>
     statistics re df_location cc pc rc nc cuisine = Inr (popular, average, overall, for_cuisine) \<and>
     r = \<lparr>average_price = (if truthy average then round2 average else Fin 0),
          popular_cuisine = popular, Popular_Restaurant = overall,
          Popular_Restaurant_serving_cuisine = for_cuisine,
          suggested_price =
            round2 (fst (suggest model_data [(lc, location), (cc, cuisine)] price average))\<rparr> \<and>
     calls = snd (suggest model_data [(lc, location), (cc, cuisine)] price average)"
proof (cases "filter_rows re df lc location")
  case (Inl e)
  with assms show ?thesis by (simp add: estimate_def)
next
  case (Inr df_location)
  note fr = this
  show ?thesis
  proof (cases "df_empty df_location")
    case True
    with assms fr show ?thesis by (simp add: estimate_def)
  next
    case False
    note ne = this
    show ?thesis
    proof (cases "statistics re df_location cc pc rc nc cuisine")
      case (Inl e)
      with assms fr ne show ?thesis by (simp add: estimate_def)
    next
      case (Inr st)
      obtain popular average overall for_cuisine
        where st: "st = (popular, average, overall, for_cuisine)"
        by (cases st) auto
      obtain s c where sg: "suggest model_data [(lc, location), (cc, cuisine)] price average = (s, c)"
        by (cases "suggest model_data [(lc, location), (cc, cuisine)] price average") auto
      from assms fr ne Inr st sg
      have "r = \<lparr>average_price = (if truthy average then round2 average else Fin 0),
          popular_cuisine = popular, Popular_Restaurant = overall,
          Popular_Restaurant_serving_cuisine = for_cuisine,
          suggested_price = round2 s\<rparr>" and "calls = c"
        by (simp_all add: estimate_def)
      with fr ne Inr st sg show ?thesis by simp
    qed
  qed
qed

lemma statistics_success:
  assumes "statistics re df_location cc pc rc nc cuisine = Inr (popular, average, overall, for_cuisine)"
  shows "\<exists>cuisine_values price_values best sub best_sub.
     map_of df_location cc = Some cuisine_values \<and> map_of df_location pc = Some price_values \<and>
     popular = (case mode cuisine_values of [] \<Rightarrow> Str ''Not Available'' | m # _ \<Rightarrow> m) \<and>
     mean price_values = Inr average \<and>
     best_of df_location rc nc = Inr best \<and>
     overall = (case best of None \<Rightarrow> Str ''Not Available'' | Some n \<Rightarrow> n) \<and>
     filter_rows re df_location cc cuisine = Inr sub \<and>
     (if \<not> df_empty sub then best_of sub rc nc else Inr None) = Inr best_sub \<and>
     for_cuisine = (case best_sub of None \<Rightarrow> Str ''Not Found'' | Some n \<Rightarrow> n)"
  using assms
  by (auto simp: statistics_def Let_def split: option.splits if_splits sum.splits prod.splits)

section \<open>The suggested price\<close>

text \<open>
  C1. When the model is loaded and its call on the request succeeds with
  \<open>predicted_price\<close>, the suggested price before rounding is \<open>predicted_price\<close> if the
  price of the request is at least \<open>predicted_price\<close>, and the smaller of
  \<open>price * 1.1\<close> and \<open>predicted_price\<close> otherwise, whatever the average price is; the
  response carries that value rounded to two decimals. The model is called on the frame
  built from the resolved column names and the location and cuisine of the request.
\<close>

theorem blend_rule:
  assumes "predict re df (Some model) data = (Inr r, calls)"
    and "req_location data = Some location" and "req_cuisine data = Some cuisine"
    and "first_alias location_columns df = Some lc"
    and "first_alias cuisine_columns df = Some cc"
    and "model [(lc, location), (cc, cuisine)] = Some predicted_price"
    and "price = (case req_price data of None \<Rightarrow> 0 | Some p \<Rightarrow> p)"
  shows "fst (suggest (Some model) [(lc, location), (cc, cuisine)] price average) =
           Fin (if price \<ge> predicted_price then predicted_price
                else min (price * (11 / 10)) predicted_price) \<and>
         suggested_price r =
           round2 (Fin (if price \<ge> predicted_price then predicted_price
                        else min (price * (11 / 10)) predicted_price))"
proof -
  from assms(6) have pre: "\<And>a. fst (suggest (Some model) [(lc, location), (cc, cuisine)] price a) =
           Fin (if price \<ge> predicted_price then predicted_price
                else min (price * (11 / 10)) predicted_price)"
    by (simp add: suggest_def)
  from predict_success [OF assms(1)] assms(2-5,7) obtain pc where
    "estimate re df (Some model) lc cc pc (first_alias rating_columns df) (first_alias name_columns df)
        location cuisine price = (Inr r, calls)"
    by auto
  from estimate_success [OF this] obtain average' where
    "suggested_price r = round2 (fst (suggest (Some model) [(lc, location), (cc, cuisine)] price average'))"
    by auto
  with pre show ?thesis by simp
qed

theorem blend_rule_witness:
  "predict (\<lambda>_. None) downtown (Some (\<lambda>_. Some 100))
      \<lparr>req_location = Some ''Downtown'', req_cuisine = Some ''Italian'', req_price = Some 15\<rparr> =
     (Inr \<lparr>average_price = Fin 20, popular_cuisine = Str ''Italian'',
           Popular_Restaurant = Str ''B'', Popular_Restaurant_serving_cuisine = Str ''B'',
           suggested_price = Fin (33 / 2)\<rparr>,
      [[(''Location'', ''Downtown''), (''Cuisines'', ''Italian'')]]) \<and>
   fst (suggest (Some (\<lambda>_. Some 100)) [(''Location'', ''Downtown''), (''Cuisines'', ''Italian'')] 15 NaN) =
     Fin (33 / 2) \<and>
   round2 (Fin (min (15 * (11 / 10)) 100)) = Fin (33 / 2)"
proof -
  let ?data = "\<lparr>req_location = Some ''Downtown'', req_cuisine = Some ''Italian'', req_price = Some 15\<rparr>"
  let ?r = "\<lparr>average_price = Fin 20, popular_cuisine = Str ''Italian'',
           Popular_Restaurant = Str ''B'', Popular_Restaurant_serving_cuisine = Str ''B'',
           suggested_price = Fin (33 / 2)\<rparr>"
  have e: "predict (\<lambda>_. None) downtown (Some (\<lambda>_. Some 100)) ?data =
     (Inr ?r, [[(''Location'', ''Downtown''), (''Cuisines'', ''Italian'')]])"
    by code_simp
  have l: "first_alias location_columns downtown = Some ''Location''" by code_simp
  have c: "first_alias cuisine_columns downtown = Some ''Cuisines''" by code_simp
  have "fst (suggest (Some (\<lambda>_. Some 100)) [(''Location'', ''Downtown''), (''Cuisines'', ''Italian'')] 15 NaN) =
           Fin (if (15::rat) \<ge> 100 then 100 else min (15 * (11 / 10)) 100) \<and>
         suggested_price ?r =
           round2 (Fin (if (15::rat) \<ge> 100 then 100 else min (15 * (11 / 10)) 100))"
    by (rule blend_rule [OF e _ _ l c]) simp_all
  with e show ?thesis by simp
qed

section \<open>The example of the specification\<close>

lemma downtown_rows: "filter_rows re downtown ''Location'' ''Downtown'' = Inr downtown"
  by code_simp

lemma downtown_statistics:
  "statistics re downtown ''Cuisines'' ''Price_for_one'' (Some ''Rating'') (Some ''Name'') ''Italian'' =
     Inr (Str ''Italian'', Fin 20, Str ''B'', Str ''B'')"
  by code_simp

lemma downtown_columns:
  "first_alias location_columns downtown = Some ''Location''"
  "first_alias cuisine_columns downtown = Some ''Cuisines''"
  "first_alias price_columns downtown = Some ''Price_for_one''"
  "first_alias rating_columns downtown = Some ''Rating''"
  "first_alias name_columns downtown = Some ''Name''"
  "\<not> df_empty downtown"
  by code_simp+

text \<open>
  C9. On the three rows of Downtown with prices 10, 20, 30, ratings 2, 5, 3, names A, B, C
  and cuisine fields "Italian", "Italian,Mexican", "Thai", the request for Downtown, Italian
  and price 15 succeeds, whatever the model is or does, with average price 20, popular
  cuisine "Italian" (the three raw fields occur once each; the smallest is returned),
  most popular restaurant "B", and "B" among the rows whose cuisine field contains
  "Italian".
\<close>

theorem downtown_example:
  "\<exists>r calls. predict re downtown model_data
       \<lparr>req_location = Some ''Downtown'', req_cuisine = Some ''Italian'', req_price = Some 15\<rparr> = (Inr r, calls) \<and>
     average_price r = Fin 20 \<and> popular_cuisine r = Str ''Italian'' \<and>
     Popular_Restaurant r = Str ''B'' \<and> Popular_Restaurant_serving_cuisine r = Str ''B''"
proof -
  obtain s c where sg: "suggest model_data [(''Location'', ''Downtown''), (''Cuisines'', ''Italian'')] 15 (Fin 20) = (s, c)"
    by (cases "suggest model_data [(''Location'', ''Downtown''), (''Cuisines'', ''Italian'')] 15 (Fin 20)") auto
  have r2: "round2 (Fin 20) = Fin 20" by code_simp
  show ?thesis
    by (simp add: predict_def estimate_def downtown_columns downtown_rows downtown_statistics sg r2
          del: round2.simps)
qed

section \<open>The average price\<close>

text \<open>
  C4, at a location whose rows have no price: the mean of no value is NaN, NaN is true in
  \<^verbatim>\<open>round(average_price, 2) if average_price else 0\<close>, and the response carries NaN where
  the claim has 0.
\<close>

theorem unpriced_average_is_nan:
  "predict (\<lambda>_. None) unpriced None
      \<lparr>req_location = Some ''Downtown'', req_cuisine = Some ''Thai'', req_price = Some 15\<rparr> =
     (Inr \<lparr>average_price = NaN, popular_cuisine = Str ''Thai'',
           Popular_Restaurant = Str ''Not Available'',
           Popular_Restaurant_serving_cuisine = Str ''Not Found'',
           suggested_price = Fin 15\<rparr>, [])"
  by code_simp

section \<open>No row for the location\<close>




section \<open>The price suggested without a prediction\<close>

lemma estimate_any_model:
  assumes "estimate re df model_data lc cc pc rc nc location cuisine price = (Inr r, calls)"
  shows "\<exists>r' calls'. estimate re df md lc cc pc rc nc location cuisine price = (Inr r', calls')"
proof -
  from estimate_success [OF assms] obtain df_location popular average overall for_cuisine where
    "filter_rows re df lc location = Inr df_location" "\<not> df_empty df_location"
    "statistics re df_location cc pc rc nc cuisine = Inr (popular, average, overall, for_cuisine)"
    by blast
  then show ?thesis by (simp add: estimate_def split_def Let_def)
qed

text \<open>
  C2, as the code has it. A call that succeeds with one model succeeds with every model,
  loaded or not, raising or not: the model never turns a response into an error. When the
  model is not loaded the suggested price is the price of the request (rounded), and the
  model is not called; the average price plays no part. When the model is loaded and its
  call raises, the suggested price is the mean of the prices of the location when that
  mean is a number other than zero (it is then the average price of the response), and
  the price of the request when the mean is zero. Nothing is said here of a location
  without any price.
\<close>

theorem fallback_price:
  assumes "predict re df model_data data = (Inr r, calls)"
    and "req_location data = Some location" and "req_cuisine data = Some cuisine"
    and "first_alias location_columns df = Some lc"
    and "first_alias cuisine_columns df = Some cc"
    and "price = (case req_price data of None \<Rightarrow> 0 | Some p \<Rightarrow> p)"
  shows "(\<forall>md. \<exists>r' calls'. predict re df md data = (Inr r', calls')) \<and>
         (model_data = None \<longrightarrow> suggested_price r = round2 (Fin price) \<and> calls = []) \<and>
         (\<forall>model. model_data = Some model \<and> model [(lc, location), (cc, cuisine)] = None \<longrightarrow>
            (\<exists>df_location pc price_values average.
               filter_rows re df lc location = Inr df_location \<and>
               first_alias price_columns df = Some pc \<and>
               map_of df_location pc = Some price_values \<and>
               mean price_values = Inr average \<and>
               (case average of
                  NaN \<Rightarrow> True
                | Fin q \<Rightarrow>
                    (q \<noteq> 0 \<longrightarrow> suggested_price r = round2 (Fin q) \<and>
                               suggested_price r = average_price r) \<and>
                    (q = 0 \<longrightarrow> suggested_price r = round2 (Fin price)))))"
proof -
  from predict_success [OF assms(1)] assms(2-6) obtain pc where
    pc: "first_alias price_columns df = Some pc" and
    valid: "location \<noteq> []" "cuisine \<noteq> []" "\<not> df_empty df" and
    est: "estimate re df model_data lc cc pc (first_alias rating_columns df)
        (first_alias name_columns df) location cuisine price = (Inr r, calls)"
    by auto
  from estimate_success [OF est] obtain df_location popular average overall for_cuisine where
    fr: "filter_rows re df lc location = Inr df_location" and
    st: "statistics re df_location cc pc (first_alias rating_columns df)
           (first_alias name_columns df) cuisine = Inr (popular, average, overall, for_cuisine)" and
    r: "r = \<lparr>average_price = (if truthy average then round2 average else Fin 0),
          popular_cuisine = popular, Popular_Restaurant = overall,
          Popular_Restaurant_serving_cuisine = for_cuisine,
          suggested_price =
            round2 (fst (suggest model_data [(lc, location), (cc, cuisine)] price average))\<rparr>" and
    calls: "calls = snd (suggest model_data [(lc, location), (cc, cuisine)] price average)"
    by blast
  from statistics_success [OF st] obtain price_values where
    pv: "map_of df_location pc = Some price_values" "mean price_values = Inr average"
    by blast
  have any: "\<forall>md. \<exists>r' calls'. predict re df md data = (Inr r', calls')"
  proof
    fix md
    from estimate_any_model [OF est, of md] obtain r' calls' where
      "estimate re df md lc cc pc (first_alias rating_columns df)
        (first_alias name_columns df) location cuisine price = (Inr r', calls')"
      by blast
    with assms(2-6) pc valid show "\<exists>r' calls'. predict re df md data = (Inr r', calls')"
      by (simp add: predict_def)
  qed
  have none: "model_data = None \<longrightarrow> suggested_price r = round2 (Fin price) \<and> calls = []"
    using r calls by (simp add: suggest_def)
  have raised: "\<forall>model. model_data = Some model \<and> model [(lc, location), (cc, cuisine)] = None \<longrightarrow>
      (case average of
         NaN \<Rightarrow> True
       | Fin q \<Rightarrow>
           (q \<noteq> 0 \<longrightarrow> suggested_price r = round2 (Fin q) \<and> suggested_price r = average_price r) \<and>
           (q = 0 \<longrightarrow> suggested_price r = round2 (Fin price)))"
    using r by (cases average) (auto simp: suggest_def)
  from any none raised fr pc pv show ?thesis by blast
qed

theorem fallback_price_witness:
  "predict (\<lambda>_. None) downtown (Some (\<lambda>_. None))
      \<lparr>req_location = Some ''Downtown'', req_cuisine = Some ''Italian'', req_price = Some 15\<rparr> =
     (Inr \<lparr>average_price = Fin 20, popular_cuisine = Str ''Italian'',
           Popular_Restaurant = Str ''B'', Popular_Restaurant_serving_cuisine = Str ''B'',
           suggested_price = Fin 20\<rparr>,
      [[(''Location'', ''Downtown''), (''Cuisines'', ''Italian'')]]) \<and>
   (\<exists>r' calls'. predict (\<lambda>_. None) downtown None
      \<lparr>req_location = Some ''Downtown'', req_cuisine = Some ''Italian'', req_price = Some 15\<rparr> =
      (Inr r', calls'))"
proof -
  let ?data = "\<lparr>req_location = Some ''Downtown'', req_cuisine = Some ''Italian'', req_price = Some 15\<rparr>"
  have e: "predict (\<lambda>_. None) downtown (Some (\<lambda>_. None)) ?data =
     (Inr \<lparr>average_price = Fin 20, popular_cuisine = Str ''Italian'',
           Popular_Restaurant = Str ''B'', Popular_Restaurant_serving_cuisine = Str ''B'',
           suggested_price = Fin 20\<rparr>,
      [[(''Location'', ''Downtown''), (''Cuisines'', ''Italian'')]])"
    by code_simp
  from fallback_price [OF e _ _ downtown_columns(1,2), of "''Downtown''" "''Italian''" 15]
  have "\<forall>md. \<exists>r' calls'. predict (\<lambda>_. None) downtown md ?data = (Inr r', calls')"
    by simp
  with e show ?thesis by blast
qed

text \<open>
  C2 as stated fails when the model is not loaded: on the example the average price is 20,
  and the suggested price is the 15 of the request.
\<close>

theorem not_loaded_counterexample:
  "predict (\<lambda>_. None) downtown None
      \<lparr>req_location = Some ''Downtown'', req_cuisine = Some ''Italian'', req_price = Some 15\<rparr> =
     (Inr \<lparr>average_price = Fin 20, popular_cuisine = Str ''Italian'',
           Popular_Restaurant = Str ''B'', Popular_Restaurant_serving_cuisine = Str ''B'',
           suggested_price = Fin 15\<rparr>, [])"
  by code_simp

section \<open>Required and optional columns\<close>

lemma best_of_unavailable: "rc = None \<or> nc = None \<Longrightarrow> best_of frame rc nc = Inr None"
  by (auto simp: best_of_def split: option.splits)

lemma statistics_without_restaurants:
  assumes "rc = None \<or> nc = None"
    and "map_of frame cc = Some (Object cs)" and "map_of frame pc = Some (Float64 ps)"
    and "re_compile re cuisine = Some m"
  shows "\<exists>popular average. statistics re frame cc pc rc nc cuisine =
           Inr (popular, average, Str ''Not Available'', Str ''Not Found'')"
  using assms(2-4)
  by (simp add: statistics_def filter_rows_def best_of_unavailable [OF assms(1)] Let_def)

text \<open>
  C5. On a frame that is not empty, a request with a location and a cuisine is answered
  with the schema error as soon as the location, the cuisine or the price column is
  unavailable. When only the rating or the name column is unavailable: every response
  carries "Not Available" as the most popular restaurant, and the call does succeed
  whenever the rest of it can, that is when the location and cuisine columns hold text,
  the price column holds numbers, both patterns compile and some row matches the location.
\<close>

theorem required_and_optional_columns:
  assumes "req_location data = Some location" and "req_cuisine data = Some cuisine"
    and "location \<noteq> []" and "cuisine \<noteq> []" and "\<not> df_empty df"
  shows "(first_alias location_columns df = None \<or> first_alias cuisine_columns df = None \<or>
          first_alias price_columns df = None \<longrightarrow>
            predict re df model_data data = (Inl SchemaError, [])) \<and>
         (first_alias rating_columns df = None \<or> first_alias name_columns df = None \<longrightarrow>
            (\<forall>r calls. predict re df model_data data = (Inr r, calls) \<longrightarrow>
               Popular_Restaurant r = Str ''Not Available'') \<and>
            (\<forall>lc cc pc ls cs ps m m'.
               wf_df df \<and> first_alias location_columns df = Some lc \<and>
               first_alias cuisine_columns df = Some cc \<and> first_alias price_columns df = Some pc \<and>
               map_of df lc = Some (Object ls) \<and> map_of df cc = Some (Object cs) \<and>
               map_of df pc = Some (Float64 ps) \<and>
               re_compile re location = Some m \<and> re_compile re cuisine = Some m' \<and>
               (\<exists>t. Some t \<in> set ls \<and> m t) \<longrightarrow>
               (\<exists>r calls. predict re df model_data data = (Inr r, calls) \<and>
                  Popular_Restaurant r = Str ''Not Available'')))"
proof (intro conjI impI allI)
  assume "first_alias location_columns df = None \<or> first_alias cuisine_columns df = None \<or>
          first_alias price_columns df = None"
  with assms show "predict re df model_data data = (Inl SchemaError, [])"
    by (auto simp: predict_def split: option.splits)
next
  fix r calls
  assume opt: "first_alias rating_columns df = None \<or> first_alias name_columns df = None"
    and ok: "predict re df model_data data = (Inr r, calls)"
  from predict_success [OF ok] obtain location' cuisine' lc cc pc where
    "estimate re df model_data lc cc pc (first_alias rating_columns df)
       (first_alias name_columns df) location' cuisine'
       (case req_price data of None \<Rightarrow> 0 | Some p \<Rightarrow> p) = (Inr r, calls)"
    by blast
  from estimate_success [OF this] obtain df_location popular average overall for_cuisine where
    st: "statistics re df_location cc pc (first_alias rating_columns df)
           (first_alias name_columns df) cuisine' = Inr (popular, average, overall, for_cuisine)"
    and r: "Popular_Restaurant r = overall"
    by auto
  from statistics_success [OF st] obtain best where
    "best_of df_location (first_alias rating_columns df) (first_alias name_columns df) = Inr best"
    "overall = (case best of None \<Rightarrow> Str ''Not Available'' | Some n \<Rightarrow> n)"
    by blast
  with best_of_unavailable [OF opt, of df_location] r
  show "Popular_Restaurant r = Str ''Not Available''" by simp
next
  fix lc cc pc ls cs ps m m'
  assume opt: "first_alias rating_columns df = None \<or> first_alias name_columns df = None"
    and rest: "wf_df df \<and> first_alias location_columns df = Some lc \<and>
               first_alias cuisine_columns df = Some cc \<and> first_alias price_columns df = Some pc \<and>
               map_of df lc = Some (Object ls) \<and> map_of df cc = Some (Object cs) \<and>
               map_of df pc = Some (Float64 ps) \<and>
               re_compile re location = Some m \<and> re_compile re cuisine = Some m' \<and>
               (\<exists>t. Some t \<in> set ls \<and> m t)"
  let ?rows = "map (na_false m) ls"
  let ?loc = "select_rows ?rows df"
  from rest have fr: "filter_rows re df lc location = Inr ?loc"
    by (simp add: filter_rows_Object)
  from rest have len: "length ?rows = nrows df"
    using wf_df_len [of df lc "Object ls"] by simp
  from rest obtain t where "Some t \<in> set ls" "m t" by blast
  then have "True \<in> set ?rows"
    by (auto simp: image_iff intro!: bexI [of _ "Some t"])
  with rest assms(5) len have ne: "\<not> df_empty ?loc"
    by (intro df_nonempty_select) (auto simp: df_empty_def)
  from rest have "map_of ?loc cc = Some (Object (select ?rows cs))"
    "map_of ?loc pc = Some (Float64 (select ?rows ps))"
    by (simp_all add: map_of_select_rows)
  with statistics_without_restaurants [OF opt, of ?loc cc _ pc _ re cuisine m'] rest
  obtain popular average where
    st: "statistics re ?loc cc pc (first_alias rating_columns df) (first_alias name_columns df) cuisine =
           Inr (popular, average, Str ''Not Available'', Str ''Not Found'')"
    by blast
  from assms rest fr ne st
  show "\<exists>r calls. predict re df model_data data = (Inr r, calls) \<and>
                  Popular_Restaurant r = Str ''Not Available''"
    by (simp add: predict_def estimate_def split_def Let_def)
qed


theorem required_and_optional_columns_witness:
  "(\<exists>r calls. predict (\<lambda>_. None) unpriced None
      \<lparr>req_location = Some ''Downtown'', req_cuisine = Some ''Thai'', req_price = Some 15\<rparr> =
      (Inr r, calls) \<and> Popular_Restaurant r = Str ''Not Available'') \<and>
   first_alias rating_columns unpriced = None"
proof -
  let ?data = "\<lparr>req_location = Some ''Downtown'', req_cuisine = Some ''Thai'', req_price = Some 15\<rparr>"
  have ne: "\<not> df_empty unpriced" by code_simp
  have wf: "wf_df unpriced" by code_simp
  have cols: "first_alias location_columns unpriced = Some ''Location''"
    "first_alias cuisine_columns unpriced = Some ''Cuisines''"
    "first_alias price_columns unpriced = Some ''Price_for_one''"
    "first_alias rating_columns unpriced = None"
    by code_simp+
  have series: "map_of unpriced ''Location'' = Some (Object [Some ''Downtown''])"
    "map_of unpriced ''Cuisines'' = Some (Object [Some ''Thai''])"
    "map_of unpriced ''Price_for_one'' = Some (Float64 [None])"
    by (simp_all add: unpriced_def)
  have lit: "literal ''Downtown''" "literal ''Thai''" by code_simp+
  have m: "icontains ''Downtown'' ''Downtown''" by code_simp
  from required_and_optional_columns
         [of ?data "''Downtown''" "''Thai''" unpriced "\<lambda>_. None" None, THEN conjunct2]
       ne cols(4)
  have "\<forall>lc cc pc ls cs ps m m'.
               wf_df unpriced \<and> first_alias location_columns unpriced = Some lc \<and>
               first_alias cuisine_columns unpriced = Some cc \<and>
               first_alias price_columns unpriced = Some pc \<and>
               map_of unpriced lc = Some (Object ls) \<and> map_of unpriced cc = Some (Object cs) \<and>
               map_of unpriced pc = Some (Float64 ps) \<and>
               re_compile (\<lambda>_. None) ''Downtown'' = Some m \<and>
               re_compile (\<lambda>_. None) ''Thai'' = Some m' \<and>
               (\<exists>t. Some t \<in> set ls \<and> m t) \<longrightarrow>
               (\<exists>r calls. predict (\<lambda>_. None) unpriced None ?data = (Inr r, calls) \<and>
                  Popular_Restaurant r = Str ''Not Available'')"
    by simp
  then have "wf_df unpriced \<and> first_alias location_columns unpriced = Some ''Location'' \<and>
               first_alias cuisine_columns unpriced = Some ''Cuisines'' \<and>
               first_alias price_columns unpriced = Some ''Price_for_one'' \<and>
               map_of unpriced ''Location'' = Some (Object [Some ''Downtown'']) \<and>
               map_of unpriced ''Cuisines'' = Some (Object [Some ''Thai'']) \<and>
               map_of unpriced ''Price_for_one'' = Some (Float64 [None]) \<and>
               re_compile (\<lambda>_. None) ''Downtown'' = Some (icontains ''Downtown'') \<and>
               re_compile (\<lambda>_. None) ''Thai'' = Some (icontains ''Thai'') \<and>
               (\<exists>t. Some t \<in> set [Some ''Downtown''] \<and> icontains ''Downtown'' t) \<longrightarrow>
               (\<exists>r calls. predict (\<lambda>_. None) unpriced None ?data = (Inr r, calls) \<and>
                  Popular_Restaurant r = Str ''Not Available'')"
    by blast
  with wf cols series lit m show ?thesis
    by (simp add: re_compile_literal)
qed

section \<open>The most popular cuisine\<close>

lemma set_unique: "set (unique seen xs) = set seen \<union> set xs"
  by (induction xs arbitrary: seen) auto

lemma distinct_unique: "distinct seen \<Longrightarrow> distinct (unique seen xs)"
  by (induction xs arbitrary: seen) auto

lemma fold_max_ge: "(a::'a::linorder) \<le> fold max xs a \<and> (\<forall>x\<in>set xs. x \<le> fold max xs a)"
proof (induction xs arbitrary: a)
  case Nil
  then show ?case by simp
next
  case (Cons x xs)
  from Cons.IH [of "max x a"] show ?case by (auto simp: max_def split: if_splits)
qed

lemma fold_max_in: "fold max xs (a::'a::linorder) \<in> insert a (set xs)"
proof (induction xs arbitrary: a)
  case Nil
  then show ?case by simp
next
  case (Cons x xs)
  from Cons.IH [of "max x a"] show ?case by (auto simp: max_def split: if_splits)
qed

lemma sort_head:
  assumes "sort xs = y # ys"
  shows "y \<in> set xs \<and> (\<forall>x\<in>set xs. (y::'a::linorder) \<le> x)"
proof -
  have "sorted (y # ys)" using assms sorted_sort [of xs] by simp
  moreover have "set (y # ys) = set xs" using assms set_sort [of "\<lambda>x. x" xs] by simp
  ultimately show ?thesis by auto
qed

lemma mode_of_empty: "mode_of [] = []"
  by (simp add: mode_of_def)

lemma mode_of_nonempty:
  assumes "vs \<noteq> []"
  shows "\<exists>m rest. mode_of vs = m # rest \<and> m \<in> set vs \<and>
           (\<forall>v. count_list vs v \<le> count_list vs m) \<and>
           (\<forall>v. count_list vs v = count_list vs m \<longrightarrow> (m::'a::linorder) \<le> v)"
proof -
  define u where "u = unique [] vs"
  define top where "top = fold max (map (count_list vs) u) 0"
  define modes where "modes = filter (\<lambda>v. count_list vs v = top) u"
  have su: "set u = set vs" by (simp add: u_def set_unique)
  have ge: "\<And>v. count_list vs v \<le> top"
  proof -
    fix v
    show "count_list vs v \<le> top"
    proof (cases "v \<in> set vs")
      case True
      then have "count_list vs v \<in> set (map (count_list vs) u)" using su by simp
      then show ?thesis using fold_max_ge [of 0 "map (count_list vs) u"] by (auto simp: top_def)
    next
      case False
      then show ?thesis by (simp add: count_list_0_iff)
    qed
  qed
  from assms obtain w where w: "w \<in> set vs" by (cases vs) auto
  then have "count_list vs w \<noteq> 0" by (simp add: count_list_0_iff)
  with ge [of w] have pos: "top \<noteq> 0" by simp
  from fold_max_in [of "map (count_list vs) u" 0] pos
  have "top \<in> set (map (count_list vs) u)" by (simp add: top_def)
  then have ne: "modes \<noteq> []" by (auto simp: modes_def filter_empty_conv)
  then have "sort modes \<noteq> []" by (metis length_0_conv length_sort)
  then obtain m rest where s: "sort modes = m # rest" by (cases "sort modes") auto
  from sort_head [OF s] have m: "m \<in> set modes" "\<forall>x\<in>set modes. m \<le> x" by auto
  then have cm: "count_list vs m = top" "m \<in> set vs" using su by (auto simp: modes_def)
  have tie: "\<forall>v. count_list vs v = count_list vs m \<longrightarrow> m \<le> v"
  proof (intro allI impI)
    fix v assume "count_list vs v = count_list vs m"
    with cm pos have "count_list vs v = top" "count_list vs v \<noteq> 0" by auto
    then have "count_list vs v = top" "v \<in> set vs" by (simp, metis count_list_0_iff)
    then have "v \<in> set modes" using su by (simp add: modes_def)
    with m show "m \<le> v" by simp
  qed
  have "mode_of vs = m # rest"
    using s by (simp add: mode_of_def Let_def u_def top_def modes_def)
  with cm ge tie show ?thesis by auto
qed

text \<open>
  C10. In every response the popular cuisine is the mode of the raw cuisine fields of the
  rows of the location, the fields taken whole and never split at the commas: a field
  that occurs at least as often as every other one and, among the fields occurring as
  often, the smallest in the order of strings; "Not Available" when every field is
  missing.
\<close>

theorem popular_cuisine_is_mode:
  assumes "predict re df model_data data = (Inr r, calls)"
  shows "\<exists>location lc cc df_location cs.
     req_location data = Some location \<and>
     first_alias location_columns df = Some lc \<and> first_alias cuisine_columns df = Some cc \<and>
     filter_rows re df lc location = Inr df_location \<and>
     map_of df_location cc = Some (Object cs) \<and>
     (if dropna cs = [] then popular_cuisine r = Str ''Not Available''
      else \<exists>m. popular_cuisine r = Str m \<and> m \<in> set (dropna cs) \<and>
             (\<forall>v. count_list (dropna cs) v \<le> count_list (dropna cs) m) \<and>
             (\<forall>v. count_list (dropna cs) v = count_list (dropna cs) m \<longrightarrow> m \<le> v))"
proof -
  from predict_success [OF assms] obtain location cuisine lc cc pc where
    req: "req_location data = Some location" "first_alias location_columns df = Some lc"
      "first_alias cuisine_columns df = Some cc" and
    est: "estimate re df model_data lc cc pc (first_alias rating_columns df)
       (first_alias name_columns df) location cuisine
       (case req_price data of None \<Rightarrow> 0 | Some p \<Rightarrow> p) = (Inr r, calls)"
    by blast
  from estimate_success [OF est] obtain df_location popular average overall for_cuisine where
    fr: "filter_rows re df lc location = Inr df_location" and
    st: "statistics re df_location cc pc (first_alias rating_columns df)
           (first_alias name_columns df) cuisine = Inr (popular, average, overall, for_cuisine)" and
    r: "popular_cuisine r = popular"
    by auto
  from statistics_success [OF st] obtain cuisine_values sub where
    cv: "map_of df_location cc = Some cuisine_values" and
    pop: "popular = (case mode cuisine_values of [] \<Rightarrow> Str ''Not Available'' | m # _ \<Rightarrow> m)" and
    sub: "filter_rows re df_location cc cuisine = Inr sub"
    by blast
  from filter_rows_success [OF sub] cv obtain cs where cs: "cuisine_values = Object cs" by auto
  have "if dropna cs = [] then popular = Str ''Not Available''
      else \<exists>m. popular = Str m \<and> m \<in> set (dropna cs) \<and>
             (\<forall>v. count_list (dropna cs) v \<le> count_list (dropna cs) m) \<and>
             (\<forall>v. count_list (dropna cs) v = count_list (dropna cs) m \<longrightarrow> m \<le> v)"
  proof (cases "dropna cs = []")
    case True
    then show ?thesis using pop cs by (simp add: mode_of_empty)
  next
    case False
    from mode_of_nonempty [OF False] obtain m rest where
      "mode_of (dropna cs) = m # rest" "m \<in> set (dropna cs)"
      "\<forall>v. count_list (dropna cs) v \<le> count_list (dropna cs) m"
      "\<forall>v. count_list (dropna cs) v = count_list (dropna cs) m \<longrightarrow> m \<le> v"
      by blast
    with False pop cs show ?thesis by auto
  qed
  with req fr cv cs r show ?thesis by auto
qed

theorem popular_cuisine_is_mode_witness:
  "predict (\<lambda>_. None) downtown None
      \<lparr>req_location = Some ''Downtown'', req_cuisine = Some ''Italian'', req_price = Some 15\<rparr> =
     (Inr \<lparr>average_price = Fin 20, popular_cuisine = Str ''Italian'',
           Popular_Restaurant = Str ''B'', Popular_Restaurant_serving_cuisine = Str ''B'',
           suggested_price = Fin 15\<rparr>, []) \<and>
   (\<exists>cs. map_of downtown ''Cuisines'' = Some (Object cs) \<and>
      (\<exists>m. Str ''Italian'' = Str m \<and> m \<in> set (dropna cs) \<and>
         (\<forall>v. count_list (dropna cs) v \<le> count_list (dropna cs) m) \<and>
         (\<forall>v. count_list (dropna cs) v = count_list (dropna cs) m \<longrightarrow> m \<le> v)))"
proof -
  let ?data = "\<lparr>req_location = Some ''Downtown'', req_cuisine = Some ''Italian'', req_price = Some 15\<rparr>"
  let ?r = "\<lparr>average_price = Fin 20, popular_cuisine = Str ''Italian'',
           Popular_Restaurant = Str ''B'', Popular_Restaurant_serving_cuisine = Str ''B'',
           suggested_price = Fin 15\<rparr>"
  have e: "predict (\<lambda>_. None) downtown None ?data = (Inr ?r, [])"
    by code_simp
  from popular_cuisine_is_mode [OF e] obtain location lc cc df_location cs where
    h: "req_location ?data = Some location"
      "first_alias location_columns downtown = Some lc"
      "first_alias cuisine_columns downtown = Some cc"
      "filter_rows (\<lambda>_. None) downtown lc location = Inr df_location"
      "map_of df_location cc = Some (Object cs)"
      "if dropna cs = [] then popular_cuisine ?r = Str ''Not Available''
       else \<exists>m. popular_cuisine ?r = Str m \<and> m \<in> set (dropna cs) \<and>
             (\<forall>v. count_list (dropna cs) v \<le> count_list (dropna cs) m) \<and>
             (\<forall>v. count_list (dropna cs) v = count_list (dropna cs) m \<longrightarrow> m \<le> v)"
    by blast
  from h(1-4) have "df_location = downtown" "cc = ''Cuisines''"
    by (auto simp: downtown_columns downtown_rows)
  with h(5,6) have "map_of downtown ''Cuisines'' = Some (Object cs) \<and>
      (\<exists>m. Str ''Italian'' = Str m \<and> m \<in> set (dropna cs) \<and>
         (\<forall>v. count_list (dropna cs) v \<le> count_list (dropna cs) m) \<and>
         (\<forall>v. count_list (dropna cs) v = count_list (dropna cs) m \<longrightarrow> m \<le> v))"
    by (auto split: if_splits)
  with e show ?thesis by blast
qed

section \<open>The locations offered\<close>

lemma set_dropna: "set (dropna xs) = {x. Some x \<in> set xs}"
  by (induction xs rule: dropna.induct) auto

lemma sorted_locations:
  fixes keep :: "'a::linorder \<Rightarrow> bool"
  shows "\<exists>L. sort (filter keep (unique [] (dropna xs))) = L \<and> sorted L \<and> distinct L \<and>
           set L = {x. Some x \<in> set xs \<and> keep x}"
  by (auto simp: set_unique set_dropna distinct_unique)

text \<open>
  C7, amended. On a data set that is not empty and has a location column, the locations
  returned by \<^verbatim>\<open>/options\<close> are the distinct values of that column that are not missing and
  whose text is not blank, in ascending order. The values are returned as they are stored:
  the text is stripped only to see whether anything is left, so two values that differ by
  surrounding white space are two locations, and the values of a numeric column stay
  numbers.
\<close>

theorem locations_as_stored:
  assumes "\<not> df_empty df" and "first_alias location_columns df = Some lc"
  shows "\<exists>opts s. get_options fmt df = Inr opts \<and> map_of df lc = Some s \<and>
     (case s of
        Object xs \<Rightarrow>
          (\<exists>L. locations opts = map Str L \<and> sorted L \<and> distinct L \<and>
               set L = {t. Some t \<in> set xs \<and> strip t \<noteq> []})
      | Float64 xs \<Rightarrow>
          (\<exists>L. locations opts = map Num L \<and> sorted L \<and> distinct L \<and>
               set L = {q. Some q \<in> set xs \<and> strip (fmt q) \<noteq> []}))"
proof -
  from map_of_column [OF first_alias_in [OF assms(2)]] obtain s where s: "map_of df lc = Some s"
    by blast
  obtain opts where o: "get_options fmt df = Inr opts" and l: "locations opts = unique_locations fmt s"
    using assms s by (simp add: get_options_def Let_def)
  have "case s of
        Object xs \<Rightarrow>
          (\<exists>L. locations opts = map Str L \<and> sorted L \<and> distinct L \<and>
               set L = {t. Some t \<in> set xs \<and> strip t \<noteq> []})
      | Float64 xs \<Rightarrow>
          (\<exists>L. locations opts = map Num L \<and> sorted L \<and> distinct L \<and>
               set L = {q. Some q \<in> set xs \<and> strip (fmt q) \<noteq> []})"
  proof (cases s)
    case (Object xs)
    with l sorted_locations [of "\<lambda>loc. strip loc \<noteq> []" xs] show ?thesis by auto
  next
    case (Float64 xs)
    with l sorted_locations [of "\<lambda>loc. strip (fmt loc) \<noteq> []" xs] show ?thesis by auto
  qed
  with o s show ?thesis by blast
qed

theorem locations_as_stored_witness:
  "\<not> df_empty padded \<and> first_alias location_columns padded = Some ''Location'' \<and>
   (\<exists>opts L. get_options (\<lambda>_. []) padded = Inr opts \<and>
      locations opts = map Str L \<and> sorted L \<and> distinct L \<and>
      set L = {t. Some t \<in> set [Some ''Downtown '', Some ''Downtown''] \<and> strip t \<noteq> []})"
proof -
  have a: "\<not> df_empty padded" by code_simp
  have b: "first_alias location_columns padded = Some ''Location''" by code_simp
  have c: "map_of padded ''Location'' = Some (Object [Some ''Downtown '', Some ''Downtown''])"
    by code_simp
  from locations_as_stored [OF a b, of "\<lambda>_. []"] c a b show ?thesis by auto
qed

text \<open>
  C7 as stated fails: the two spellings of one location are both returned, the trailing
  space kept, where trimming before removing the duplicates would leave one.
\<close>

theorem padded_locations_counterexample:
  "get_options (\<lambda>_. []) padded =
     Inr \<lparr>locations = [Str ''Downtown'', Str ''Downtown ''], cuisines = [''Thai''],
          total_records = 2\<rparr> \<and>
   strip ''Downtown '' = ''Downtown''"
  by code_simp

section \<open>The best restaurant for the cuisine\<close>







section \<open>The cuisines offered\<close>

lemma columns_iloc: "columns (iloc idx df) = columns df"
  by (induction df) (auto simp: iloc_def columns_def)

lemma map_of_iloc: "map_of (iloc idx df) c = map_option (take_rows idx) (map_of df c)"
  by (induction df) (auto simp: iloc_def)

lemma series_len_take_rows: "series_len (take_rows idx s) = length idx"
  by (cases s) simp_all

lemma df_empty_iloc:
  assumes "\<not> df_empty df" and "set idx = {..<nrows df}"
  shows "\<not> df_empty (iloc idx df)"
proof -
  from assms(1) obtain n s rest where df: "df = (n, s) # rest" and "nrows df \<noteq> 0"
    by (cases df) (auto simp: df_empty_def)
  with assms(2) have "0 \<in> set idx" by auto
  then have "idx \<noteq> []" by auto
  with df show ?thesis by (simp add: df_empty_def iloc_def series_len_take_rows)
qed

lemma set_rows_taken:
  assumes "set idx = {..<length xs}"
  shows "set (map (\<lambda>i. xs ! i) idx) = set xs"
proof -
  have "set (map (\<lambda>i. xs ! i) idx) = (\<lambda>i. xs ! i) ` {..<length xs}" using assms by simp
  also have "\<dots> = set xs" by (auto simp: set_conv_nth)
  finally show ?thesis .
qed

lemma set_entry_texts:
  assumes "set idx = {..<series_len s}"
  shows "set (entry_texts fmt (take_rows idx s)) = set (entry_texts fmt s)"
proof (cases s)
  case (Object xs)
  with assms have "set idx = {..<length xs}" by simp
  then have "set (map (\<lambda>i. xs ! i) idx) = set xs" by (rule set_rows_taken)
  with Object show ?thesis by (simp add: set_dropna)
next
  case (Float64 xs)
  with assms have "set idx = {..<length xs}" by simp
  then have "set (map (\<lambda>i. xs ! i) idx) = set xs" by (rule set_rows_taken)
  with Float64 show ?thesis by (simp add: set_dropna)
qed

lemma set_add_cuisines:
  "set (fold add_cuisine ts acc) = set acc \<union> {strip t |t. t \<in> set ts \<and> strip t \<noteq> []}"
  by (induction ts arbitrary: acc) (auto simp: add_cuisine_def Let_def)

lemma distinct_add_cuisines: "distinct acc \<Longrightarrow> distinct (fold add_cuisine ts acc)"
  by (induction ts arbitrary: acc) (auto simp: add_cuisine_def Let_def)

lemma set_fold_entries:
  "set (fold (\<lambda>cuisine_entry all_cuisines. fold add_cuisine (split_comma cuisine_entry) all_cuisines)
          entries acc) =
     set acc \<union> {strip t |t e. e \<in> set entries \<and> t \<in> set (split_comma e) \<and> strip t \<noteq> []}"
  by (induction entries arbitrary: acc) (auto simp: set_add_cuisines)

lemma distinct_fold_entries:
  "distinct acc \<Longrightarrow>
   distinct (fold (\<lambda>cuisine_entry all_cuisines. fold add_cuisine (split_comma cuisine_entry) all_cuisines)
          entries acc)"
  by (induction entries arbitrary: acc) (auto simp: distinct_add_cuisines)

lemma set_collect_cuisines:
  "set (collect_cuisines entries) =
     {strip t |t e. e \<in> set entries \<and> t \<in> set (split_comma e) \<and> strip t \<noteq> []}"
  by (simp add: collect_cuisines_def set_fold_entries)

lemma distinct_collect_cuisines: "distinct (collect_cuisines entries)"
  by (simp add: collect_cuisines_def distinct_fold_entries)

lemma sorted_cuisines_cong:
  assumes "set entries' = set entries"
  shows "sort (collect_cuisines entries') = sort (collect_cuisines entries)"
proof (rule sorted_distinct_set_unique)
  show "set (sort (collect_cuisines entries')) = set (sort (collect_cuisines entries))"
    using assms by (simp add: set_collect_cuisines)
qed (simp_all add: distinct_collect_cuisines)

text \<open>
  C8. On a data set that is not empty, the cuisines returned by \<^verbatim>\<open>/options\<close> do not depend
  on the order of the rows nor on how often a row occurs: the frame made of the rows at the
  positions \<open>idx\<close>, where every row of the data set is listed at least once, in any order
  and any number of times, gives the same list of cuisines.
\<close>

theorem cuisines_invariant:
  assumes "wf_df df" and "\<not> df_empty df" and "set idx = {..<nrows df}"
  shows "\<exists>opts opts'. get_options fmt df = Inr opts \<and> get_options fmt (iloc idx df) = Inr opts' \<and>
           cuisines opts' = cuisines opts"
proof -
  let ?cc = "first_alias cuisine_columns df"
  have cc: "first_alias cuisine_columns (iloc idx df) = ?cc"
    by (rule first_alias_cong) (rule columns_iloc)
  have ne: "\<not> df_empty (iloc idx df)" using assms(2,3) by (rule df_empty_iloc)
  have "(case ?cc of None \<Rightarrow> []
         | Some c \<Rightarrow> (case map_of (iloc idx df) c of None \<Rightarrow> []
                      | Some s \<Rightarrow> sort (collect_cuisines (entry_texts fmt s)))) =
        (case ?cc of None \<Rightarrow> []
         | Some c \<Rightarrow> (case map_of df c of None \<Rightarrow> []
                      | Some s \<Rightarrow> sort (collect_cuisines (entry_texts fmt s))))"
  proof (cases ?cc)
    case None
    then show ?thesis by simp
  next
    case (Some c)
    show ?thesis
    proof (cases "map_of df c")
      case None
      with Some show ?thesis by (simp add: map_of_iloc)
    next
      case (Some s)
      from wf_df_len [OF assms(1) Some] assms(3) have "set idx = {..<series_len s}" by simp
      then have "set (entry_texts fmt (take_rows idx s)) = set (entry_texts fmt s)"
        by (rule set_entry_texts)
      then have "sort (collect_cuisines (entry_texts fmt (take_rows idx s))) =
                 sort (collect_cuisines (entry_texts fmt s))"
        by (rule sorted_cuisines_cong)
      with Some \<open>?cc = Some c\<close> show ?thesis by (simp add: map_of_iloc)
    qed
  qed
  with assms(2) ne cc show ?thesis by (simp add: get_options_def Let_def)
qed

theorem cuisines_invariant_witness:
  "wf_df downtown \<and> \<not> df_empty downtown \<and> set [2, 0, 1, 0] = {..<nrows downtown} \<and>
   (\<exists>opts opts'. get_options (\<lambda>_. []) downtown = Inr opts \<and>
      get_options (\<lambda>_. []) (iloc [2, 0, 1, 0] downtown) = Inr opts' \<and>
      cuisines opts' = cuisines opts \<and> cuisines opts = [''Italian'', ''Mexican'', ''Thai''])"
proof -
  have a: "wf_df downtown" by code_simp
  have b: "\<not> df_empty downtown" by code_simp
  have n: "nrows downtown = 3" by code_simp
  have c: "set [2, 0, 1, 0] = {..<nrows downtown}" unfolding n by auto
  have d: "get_options (\<lambda>_. []) downtown =
      Inr \<lparr>locations = [Str ''Downtown''], cuisines = [''Italian'', ''Mexican'', ''Thai''],
           total_records = 3\<rparr>"
    by code_simp
  from cuisines_invariant [OF a b c, of "\<lambda>_. []"] d a b c show ?thesis by auto
qed

end
